theory Spec2Isabelle
  imports Complex_Main
begin

section \<open>Numbers as the notebooks compute them\<close>

text \<open>
  The notebooks compute with numpy and pandas float64 values. The model keeps the three
  kinds of value that matter for the properties below: a finite value, the infinities that
  a division of a non-zero value by zero yields, and NaN, which a division of zero by zero
  yields and which pandas uses for a missing entry. A finite value is kept as an exact
  rational and the arithmetic on finite values is exact: the rounding of float64 is not
  modelled, so where the code prints 86.66666666666666 the model has 260/3. Which results
  are finite, infinite or NaN is as in the code.
\<close>

datatype npfloat = NaN | PosInf | NegInf | Fin rat

text \<open>The comparison \<^verbatim>\<open>a < b\<close> on float64: every comparison with NaN is False.\<close>

fun np_lt :: "npfloat \<Rightarrow> npfloat \<Rightarrow> bool" where
  "np_lt NaN _ = False"
| "np_lt _ NaN = False"
| "np_lt (Fin a) (Fin b) = (a < b)"
| "np_lt (Fin _) PosInf = True"
| "np_lt (Fin _) NegInf = False"
| "np_lt NegInf NegInf = False"
| "np_lt NegInf _ = True"
| "np_lt PosInf _ = False"

text \<open>\<^verbatim>\<open>.astype(int)\<close> on a boolean column: True becomes 1, False becomes 0.\<close>

definition astype_int :: "bool \<Rightarrow> int" where
  "astype_int b = (if b then 1 else 0)"

section \<open>The toxicity label\<close>

text \<open>
  \<^verbatim>\<open>scoredcomments["toxicity"] = (scoredcomments["median_score"] < 0).astype(int)\<close>

  The column \<open>median_score\<close> holds one float per comment (NaN where the comment has no
  score); the comparison and the cast work element by element.
\<close>

definition toxicity :: "npfloat list \<Rightarrow> int list" where
  "toxicity median_score = map (\<lambda>m. astype_int (np_lt m (Fin 0))) median_score"

lemma np_lt_zero_iff: "np_lt m (Fin 0) \<longleftrightarrow> m = NegInf \<or> (\<exists>r. m = Fin r \<and> r < 0)"
  by (cases m) simp_all

text \<open>
  Claim C9. In the toxic-comment labelling step the label column has one entry per
  comment, and the label of a comment is 1 exactly when its median annotator score is
  strictly below 0 (a finite negative score, or minus infinity), and 0 otherwise; in
  particular a finite median \<open>r\<close> is labelled 1 exactly when \<open>r < 0\<close>, and a zero, a
  positive or a missing (NaN) median is labelled 0.
\<close>

theorem toxicity_label:
  "length (toxicity median_score) = length median_score \<and>
   (\<forall>i < length median_score.
      (toxicity median_score ! i = 1 \<longleftrightarrow>
         median_score ! i = NegInf \<or> (\<exists>r. median_score ! i = Fin r \<and> r < 0)) \<and>
      (toxicity median_score ! i = 0 \<longleftrightarrow>
         \<not> (median_score ! i = NegInf \<or> (\<exists>r. median_score ! i = Fin r \<and> r < 0))) \<and>
      (\<forall>r. median_score ! i = Fin r \<longrightarrow> (toxicity median_score ! i = 1 \<longleftrightarrow> r < 0)))"
  by (simp add: toxicity_def astype_int_def np_lt_zero_iff)

theorem toxicity_label_witness:
  "toxicity [Fin (1/2), Fin 0, Fin (- 1), NaN] = [0, 0, 1, 0] \<and>
   toxicity [Fin (1/2), Fin 0, Fin (- 1), NaN] ! 2 = 1 \<and>
   (\<exists>r. [Fin (1/2), Fin 0, Fin (- 1), NaN] ! 2 = Fin r \<and> r < 0) \<and>
   toxicity [Fin (1/2), Fin 0, Fin (- 1), NaN] ! 0 = 0 \<and>
   length (toxicity [Fin (1/2), Fin 0, Fin (- 1), NaN]) = 4"
  using toxicity_label [of "[Fin (1/2), Fin 0, Fin (- 1), NaN]"]
  by (simp add: toxicity_def astype_int_def)

section \<open>Reporting the accuracy of one prediction run\<close>

text \<open>
  What the notebook's own code can raise: Python's division of an int by the int 0,
  numpy's IndexError for an index outside the array or for a boolean mask that is not empty
  and whose length differs from the array's, a prediction asked of a classifier that was
  never fitted, and ValueError, with which numpy refuses to compare arrays that cannot be
  broadcast and with which the fold generator rejects its input.
\<close>

datatype error = ZeroDivisionError | IndexError | NotFittedError | ValueError

text \<open>\<^verbatim>\<open>a / b\<close> on Python ints (true division).\<close>

definition py_div :: "nat \<Rightarrow> nat \<Rightarrow> error + rat" where
  "py_div a b = (if b = 0 then Inl ZeroDivisionError else Inr (of_nat a / of_nat b))"

text \<open>
  \<^verbatim>\<open>a / b\<close> where \<open>a\<close> is a numpy integer (the result of \<^verbatim>\<open>.sum()\<close>): numpy does not raise
  on a zero divisor, it returns NaN for 0/0 and infinity otherwise (the notebook silences
  the warnings).
\<close>

definition np_div :: "nat \<Rightarrow> nat \<Rightarrow> npfloat" where
  "np_div a b = (if b = 0 then (if a = 0 then NaN else PosInf) else Fin (of_nat a / of_nat b))"

text \<open>\<^verbatim>\<open>y_est[y_target == c]\<close>: the predictions at the positions whose target is \<open>c\<close>.\<close>

definition masked :: "int list \<Rightarrow> int list \<Rightarrow> int \<Rightarrow> int list" where
  "masked y_est y_target c = map fst (filter (\<lambda>(e, t). t = c) (zip y_est y_target))"

text \<open>\<^verbatim>\<open>(a == c).sum()\<close>: how many entries of \<open>a\<close> equal the scalar \<open>c\<close>.\<close>

definition n_hits :: "int list \<Rightarrow> int \<Rightarrow> nat" where
  "n_hits a c = length (filter (\<lambda>e. e = c) a)"

text \<open>\<^verbatim>\<open>(y_est == y_target).sum()\<close>: how many positions agree.\<close>

definition n_equal :: "int list \<Rightarrow> int list \<Rightarrow> nat" where
  "n_equal y_est y_target = length (filter (\<lambda>(e, t). e = t) (zip y_est y_target))"

text \<open>The numbers the four \<^verbatim>\<open>print\<close> calls of \<^verbatim>\<open>print_prediction_results\<close> format, in order.\<close>

record prediction_results =
  n_nontoxic :: nat
  pct_nontoxic :: rat
  n_toxic :: nat
  pct_toxic :: rat
  correct_all :: nat
  size_all :: nat
  accuracy_all :: npfloat
  correct_nontoxic :: nat
  size_nontoxic :: nat
  accuracy_nontoxic :: npfloat
  correct_toxic :: nat
  size_toxic :: nat
  accuracy_toxic :: npfloat

text \<open>
  \<^verbatim>\<open>print_prediction_results(y_est, y_target)\<close>. The shares of the two classes in the test
  set are computed from \<^verbatim>\<open>.size\<close> values, which are Python ints, so an empty \<open>y_est\<close> raises
  ZeroDivisionError there; the three accuracies divide a numpy integer and never raise.
  All are percentages (\<^verbatim>\<open>100 * ... / ...\<close>).

  Arrays of different lengths: a mask \<^verbatim>\<open>y_target == c\<close> that is not empty and does not have
  the length of \<open>y_est\<close> makes \<^verbatim>\<open>y_est[y_target == c]\<close> raise IndexError. An empty mask
  selects nothing from any array; then \<^verbatim>\<open>y_est == y_target\<close> compares with an empty array,
  which a single prediction is broadcast to (no position agrees, and a report is printed)
  and which two or more predictions cannot be broadcast to (ValueError).
\<close>

definition print_prediction_results :: "int list \<Rightarrow> int list \<Rightarrow> error + prediction_results" where
  "print_prediction_results y_est y_target =
     (if length y_est \<noteq> length y_target \<and> y_target \<noteq> [] then Inl IndexError
      else if y_target = [] \<and> 1 < length y_est then Inl ValueError
      else
        case py_div (100 * length (masked y_est y_target 0)) (length y_est) of
          Inl e \<Rightarrow> Inl e
        | Inr p0 \<Rightarrow>
            (case py_div (100 * length (masked y_est y_target 1)) (length y_est) of
               Inl e \<Rightarrow> Inl e
             | Inr p1 \<Rightarrow>
                 Inr \<lparr> n_nontoxic = length (masked y_est y_target 0),
                       pct_nontoxic = p0,
                       n_toxic = length (masked y_est y_target 1),
                       pct_toxic = p1,
                       correct_all = n_equal y_est y_target,
                       size_all = length y_est,
                       accuracy_all = np_div (100 * n_equal y_est y_target) (length y_est),
                       correct_nontoxic = n_hits (masked y_est y_target 0) 0,
                       size_nontoxic = length (masked y_est y_target 0),
                       accuracy_nontoxic =
                         np_div (100 * n_hits (masked y_est y_target 0) 0)
                           (length (masked y_est y_target 0)),
                       correct_toxic = n_hits (masked y_est y_target 1) 1,
                       size_toxic = length (masked y_est y_target 1),
                       accuracy_toxic =
                         np_div (100 * n_hits (masked y_est y_target 1) 1)
                           (length (masked y_est y_target 1)) \<rparr>))"

section \<open>Cross-validation of a classifier\<close>

text \<open>
  A scikit-learn estimator as the notebook uses it: an object holding its hyperparameters
  and, once \<^verbatim>\<open>fit\<close> has run, what it learned. \<^verbatim>\<open>clf.fit(X, y)\<close> works in place: it
  replaces what the object learned by what the library's fitting routine computes from the
  hyperparameters and the data it is given. The fitting and the prediction routines
  themselves are the library's and are parameters of the model.
\<close>

record ('p, 'm) classifier =
  params :: 'p
  fitted :: "'m option"

definition clf_fit ::
  "('p \<Rightarrow> 'x list \<Rightarrow> int list \<Rightarrow> 'm) \<Rightarrow> ('p, 'm) classifier \<Rightarrow> 'x list \<Rightarrow> int list \<Rightarrow> ('p, 'm) classifier" where
  "clf_fit fit clf X y = clf\<lparr>fitted := Some (fit (params clf) X y)\<rparr>"

definition clf_predict ::
  "('p \<Rightarrow> 'm \<Rightarrow> 'x list \<Rightarrow> int list) \<Rightarrow> ('p, 'm) classifier \<Rightarrow> 'x list \<Rightarrow> error + int list" where
  "clf_predict predict clf X =
     (case fitted clf of None \<Rightarrow> Inl NotFittedError | Some m \<Rightarrow> Inr (predict (params clf) m X))"

text \<open>\<^verbatim>\<open>a[index]\<close> with an array of positions: numpy raises IndexError on a position outside the array.\<close>

definition take_rows :: "'a list \<Rightarrow> nat list \<Rightarrow> error + 'a list" where
  "take_rows a index =
     (if list_all (\<lambda>i. i < length a) index then Inr (map (\<lambda>i. a ! i) index) else Inl IndexError)"

text \<open>
  Sums and means of float64 values, as \<^verbatim>\<open>np.mean\<close> computes them: the sum of the entries
  divided by their number, NaN for an empty list. On finite values the model adds and
  divides exactly, where numpy rounds each operation.
\<close>

fun np_add :: "npfloat \<Rightarrow> npfloat \<Rightarrow> npfloat" where
  "np_add NaN _ = NaN"
| "np_add _ NaN = NaN"
| "np_add PosInf NegInf = NaN"
| "np_add NegInf PosInf = NaN"
| "np_add PosInf _ = PosInf"
| "np_add _ PosInf = PosInf"
| "np_add NegInf _ = NegInf"
| "np_add _ NegInf = NegInf"
| "np_add (Fin a) (Fin b) = Fin (a + b)"

fun np_over :: "npfloat \<Rightarrow> nat \<Rightarrow> npfloat" where
  "np_over NaN n = NaN"
| "np_over PosInf n = PosInf"
| "np_over NegInf n = NegInf"
| "np_over (Fin a) n =
     (if n = 0 then (if a = 0 then NaN else if 0 < a then PosInf else NegInf)
      else Fin (a / of_nat n))"

definition np_mean :: "npfloat list \<Rightarrow> npfloat" where
  "np_mean a = np_over (foldl np_add (Fin 0) a) (length a)"

text \<open>\<^verbatim>\<open>x * 100\<close> on a float64.\<close>

fun times100 :: "npfloat \<Rightarrow> npfloat" where
  "times100 (Fin a) = Fin (a * 100)"
| "times100 x = x"

text \<open>
  The variables of the loop of \<^verbatim>\<open>cross_validate_classifier\<close>: the classifier object, the
  fold counter \<open>i\<close>, the list \<open>accuracy\<close>, and what has been printed so far (the fold
  number with the numbers of its report).
\<close>

record ('p, 'm) cv_state =
  cv_clf :: "('p, 'm) classifier"
  cv_i :: nat
  accuracy :: "npfloat list"
  printed :: "(nat \<times> prediction_results) list"

text \<open>One turn of the loop.\<close>

fun cv_fold ::
  "('p \<Rightarrow> 'x list \<Rightarrow> int list \<Rightarrow> 'm) \<Rightarrow> ('p \<Rightarrow> 'm \<Rightarrow> 'x list \<Rightarrow> int list) \<Rightarrow>
   'x list \<Rightarrow> int list \<Rightarrow> nat list \<times> nat list \<Rightarrow> ('p, 'm) cv_state \<Rightarrow> error + ('p, 'm) cv_state" where
  "cv_fold fit predict X_text y (train_index, test_index) s =
     (case take_rows X_text train_index of Inl e \<Rightarrow> Inl e | Inr X_train \<Rightarrow>
      case take_rows y train_index of Inl e \<Rightarrow> Inl e | Inr y_train \<Rightarrow>
      case take_rows X_text test_index of Inl e \<Rightarrow> Inl e | Inr X_test \<Rightarrow>
      case clf_predict predict (clf_fit fit (cv_clf s) X_train y_train) X_test of
        Inl e \<Rightarrow> Inl e | Inr y_est \<Rightarrow>
      case take_rows y test_index of Inl e \<Rightarrow> Inl e | Inr y_test \<Rightarrow>
      case print_prediction_results y_est y_test of Inl e \<Rightarrow> Inl e | Inr report \<Rightarrow>
        Inr \<lparr> cv_clf = clf_fit fit (cv_clf s) X_train y_train,
              cv_i = cv_i s + 1,
              accuracy = accuracy s @ [np_div (n_equal y_est y_test) (length y_est)],
              printed = printed s @ [(cv_i s, report)] \<rparr>)"

text \<open>The \<^verbatim>\<open>for\<close> loop over the folds; an exception ends it.\<close>

fun cv_folds ::
  "('p \<Rightarrow> 'x list \<Rightarrow> int list \<Rightarrow> 'm) \<Rightarrow> ('p \<Rightarrow> 'm \<Rightarrow> 'x list \<Rightarrow> int list) \<Rightarrow>
   'x list \<Rightarrow> int list \<Rightarrow> (nat list \<times> nat list) list \<Rightarrow> ('p, 'm) cv_state \<Rightarrow> error + ('p, 'm) cv_state" where
  "cv_folds fit predict X_text y [] s = Inr s"
| "cv_folds fit predict X_text y (f # folds) s =
     (case cv_fold fit predict X_text y f s of
        Inl e \<Rightarrow> Inl e
      | Inr s' \<Rightarrow> cv_folds fit predict X_text y folds s')"

text \<open>\<^verbatim>\<open>StratifiedKFold(n_splits=5, shuffle=True)\<close>.\<close>

definition n_splits :: nat where
  "n_splits = 5"

text \<open>
  \<^verbatim>\<open>cross_validate_classifier(clf, X_text, y)\<close>. The fold generator \<open>kf_split\<close> is the
  library's \<^verbatim>\<open>StratifiedKFold.split\<close> (with the shuffle it drew); it gets the number of
  folds and the data, and returns the \<open>(train_index, test_index)\<close> pairs or raises. The
  result is the state the loop ends in, together with the last number printed:
  \<^verbatim>\<open>np.mean(accuracy)*100\<close>.
\<close>

definition cross_validate_classifier ::
  "(nat \<Rightarrow> 'x list \<Rightarrow> int list \<Rightarrow> error + (nat list \<times> nat list) list) \<Rightarrow>
   ('p \<Rightarrow> 'x list \<Rightarrow> int list \<Rightarrow> 'm) \<Rightarrow> ('p \<Rightarrow> 'm \<Rightarrow> 'x list \<Rightarrow> int list) \<Rightarrow>
   ('p, 'm) classifier \<Rightarrow> 'x list \<Rightarrow> int list \<Rightarrow> error + (('p, 'm) cv_state \<times> npfloat)" where
  "cross_validate_classifier kf_split fit predict clf X_text y =
     (case kf_split n_splits X_text y of
        Inl e \<Rightarrow> Inl e
      | Inr folds \<Rightarrow>
          (case cv_folds fit predict X_text y folds
                  \<lparr> cv_clf = clf, cv_i = 1, accuracy = [], printed = [] \<rparr> of
             Inl e \<Rightarrow> Inl e
           | Inr s \<Rightarrow> Inr (s, times100 (np_mean (accuracy s)))))"

text \<open>
  The last cell of the notebook:
  \<^verbatim>\<open>cross_validate_classifier(grid_search.best_estimator_, X_text, target)\<close>.
  The function receives the very object that \<^verbatim>\<open>grid_search.best_estimator_\<close> names, so
  what the loop does to its classifier is done to that attribute (the fields are named
  without the trailing underscore of the attributes).
\<close>

record ('p, 'm) grid_search_object =
  best_estimator :: "('p, 'm) classifier"
  best_score :: npfloat

definition validate_best_estimator ::
  "(nat \<Rightarrow> 'x list \<Rightarrow> int list \<Rightarrow> error + (nat list \<times> nat list) list) \<Rightarrow>
   ('p \<Rightarrow> 'x list \<Rightarrow> int list \<Rightarrow> 'm) \<Rightarrow> ('p \<Rightarrow> 'm \<Rightarrow> 'x list \<Rightarrow> int list) \<Rightarrow>
   ('p, 'm) grid_search_object \<Rightarrow> 'x list \<Rightarrow> int list \<Rightarrow>
   error + (('p, 'm) grid_search_object \<times> ('p, 'm) cv_state \<times> npfloat)" where
  "validate_best_estimator kf_split fit predict grid_search X_text target =
     (case cross_validate_classifier kf_split fit predict (best_estimator grid_search) X_text target of
        Inl e \<Rightarrow> Inl e
      | Inr (s, overall) \<Rightarrow> Inr (grid_search\<lparr>best_estimator := cv_clf s\<rparr>, s, overall))"

section \<open>What the cross-validation computes\<close>

text \<open>
  The rows of an array at the given positions, where all of them are inside it.
\<close>

definition rows :: "'a list \<Rightarrow> nat list \<Rightarrow> 'a list" where
  "rows a index = map (\<lambda>i. a ! i) index"

text \<open>
  Counting by position, independently of the masks the code uses: the positions of a
  test set where the prediction is the target, the positions that belong to class \<open>c\<close>,
  and those of class \<open>c\<close> that are predicted as \<open>c\<close>.
\<close>

definition n_correct :: "int list \<Rightarrow> int list \<Rightarrow> nat" where
  "n_correct y_est y_target = length (filter (\<lambda>i. y_est ! i = y_target ! i) [0..<length y_target])"

definition n_class :: "int \<Rightarrow> int list \<Rightarrow> nat" where
  "n_class c y_target = length (filter (\<lambda>i. y_target ! i = c) [0..<length y_target])"

definition n_class_correct :: "int \<Rightarrow> int list \<Rightarrow> int list \<Rightarrow> nat" where
  "n_class_correct c y_est y_target =
     length (filter (\<lambda>i. y_target ! i = c \<and> y_est ! i = c) [0..<length y_target])"

text \<open>
  The predictions for the test rows of a fold by the classifier fitted on the training
  rows of that fold.
\<close>

definition fold_predictions ::
  "('p \<Rightarrow> 'x list \<Rightarrow> int list \<Rightarrow> 'm) \<Rightarrow> ('p \<Rightarrow> 'm \<Rightarrow> 'x list \<Rightarrow> int list) \<Rightarrow> 'p \<Rightarrow>
   'x list \<Rightarrow> int list \<Rightarrow> nat list \<times> nat list \<Rightarrow> int list" where
  "fold_predictions fit predict p X_text y f =
     predict p (fit p (rows X_text (fst f)) (rows y (fst f))) (rows X_text (snd f))"

lemma zip_by_index:
  "length xs = length ys \<Longrightarrow> zip xs ys = map (\<lambda>i. (xs ! i, ys ! i)) [0..<length ys]"
  by (rule nth_equalityI) simp_all

lemma n_equal_by_index:
  "length y_est = length y_target \<Longrightarrow> n_equal y_est y_target = n_correct y_est y_target"
  by (simp add: n_equal_def n_correct_def zip_by_index filter_map comp_def)

lemma masked_by_index:
  "length y_est = length y_target \<Longrightarrow>
   masked y_est y_target c = map (\<lambda>i. y_est ! i) (filter (\<lambda>i. y_target ! i = c) [0..<length y_target])"
  by (simp add: masked_def zip_by_index filter_map comp_def)

lemma size_masked:
  "length y_est = length y_target \<Longrightarrow> length (masked y_est y_target c) = n_class c y_target"
  by (simp add: masked_by_index n_class_def)

lemma hits_masked:
  "length y_est = length y_target \<Longrightarrow>
   n_hits (masked y_est y_target c) c = n_class_correct c y_est y_target"
  by (simp add: masked_by_index n_hits_def n_class_correct_def filter_map comp_def conj_commute)

lemma take_rows_ok:
  "list_all (\<lambda>i. i < length a) index \<Longrightarrow> take_rows a index = Inr (rows a index)"
  by (simp add: take_rows_def rows_def)

lemma print_prediction_results_ok:
  assumes "length y_est = length y_target" and "y_target \<noteq> []"
  shows "\<exists>r. print_prediction_results y_est y_target = Inr r"
  using assms by (simp add: print_prediction_results_def py_div_def)


text \<open>
  Folds as a fold generator yields them for \<open>n\<close> samples: every position is inside
  the data and no test set is empty.
\<close>

definition folds_ok :: "nat \<Rightarrow> (nat list \<times> nat list) list \<Rightarrow> bool" where
  "folds_ok n folds =
     list_all (\<lambda>f. list_all (\<lambda>i. i < n) (fst f) \<and> list_all (\<lambda>i. i < n) (snd f) \<and> snd f \<noteq> []) folds"

text \<open>
  The library's \<^verbatim>\<open>predict\<close> returns one label for each row it is given.
\<close>

definition row_per_sample :: "('p \<Rightarrow> 'm \<Rightarrow> 'x list \<Rightarrow> int list) \<Rightarrow> bool" where
  "row_per_sample predict = (\<forall>p m X. length (predict p m X) = length X)"

lemma length_fold_predictions:
  "row_per_sample predict \<Longrightarrow>
   length (fold_predictions fit predict p X_text y f) = length (snd f)"
  by (simp add: row_per_sample_def fold_predictions_def rows_def)

lemma clf_predict_after_fit:
  "clf_predict predict (clf_fit fit clf X y) X' = Inr (predict (params clf) (fit (params clf) X y) X')"
  by (simp add: clf_predict_def clf_fit_def)

lemma cv_fold_run:
  assumes tr: "list_all (\<lambda>i. i < length X_text) tr"
    and te: "list_all (\<lambda>i. i < length X_text) te"
    and ne: "te \<noteq> []"
    and len: "length y = length X_text"
    and pred: "row_per_sample predict"
  shows "\<exists>r. print_prediction_results
               (fold_predictions fit predict (params (cv_clf s)) X_text y (tr, te)) (rows y te) = Inr r \<and>
             cv_fold fit predict X_text y (tr, te) s =
               Inr \<lparr> cv_clf = (cv_clf s)\<lparr>fitted :=
                        Some (fit (params (cv_clf s)) (rows X_text tr) (rows y tr))\<rparr>,
                     cv_i = cv_i s + 1,
                     accuracy = accuracy s @
                       [np_div (n_equal (fold_predictions fit predict (params (cv_clf s)) X_text y (tr, te))
                                  (rows y te)) (length te)],
                     printed = printed s @ [(cv_i s, r)] \<rparr>"
proof -
  let ?e = "fold_predictions fit predict (params (cv_clf s)) X_text y (tr, te)"
  have le: "length ?e = length (rows y te)"
    using pred by (simp add: length_fold_predictions rows_def)
  have "rows y te \<noteq> []" using ne by (simp add: rows_def)
  with le obtain r where r: "print_prediction_results ?e (rows y te) = Inr r"
    using print_prediction_results_ok by blast
  have le': "length ?e = length te" using le by (simp add: rows_def)
  have "cv_fold fit predict X_text y (tr, te) s =
          Inr \<lparr> cv_clf = clf_fit fit (cv_clf s) (rows X_text tr) (rows y tr),
                cv_i = cv_i s + 1,
                accuracy = accuracy s @ [np_div (n_equal ?e (rows y te)) (length ?e)],
                printed = printed s @ [(cv_i s, r)] \<rparr>"
    using tr te len r
    by (simp add: take_rows_ok clf_predict_after_fit fold_predictions_def)
  then show ?thesis using r le' by (auto simp add: clf_fit_def)
qed

lemma cv_folds_run:
  assumes "folds_ok (length X_text) folds"
    and "length y = length X_text"
    and "row_per_sample predict"
  shows "\<exists>reps. list_all2 (\<lambda>f r. print_prediction_results
                       (fold_predictions fit predict (params (cv_clf s)) X_text y f) (rows y (snd f)) = Inr r)
                    folds reps \<and>
           cv_folds fit predict X_text y folds s =
             Inr \<lparr> cv_clf = (if folds = [] then cv_clf s
                              else (cv_clf s)\<lparr>fitted :=
                                Some (fit (params (cv_clf s)) (rows X_text (fst (last folds)))
                                        (rows y (fst (last folds))))\<rparr>),
                   cv_i = cv_i s + length folds,
                   accuracy = accuracy s @
                     map (\<lambda>f. np_div (n_equal (fold_predictions fit predict (params (cv_clf s)) X_text y f)
                                        (rows y (snd f))) (length (snd f))) folds,
                   printed = printed s @ zip [cv_i s..<cv_i s + length folds] reps \<rparr>"
  using assms(1)
proof (induction folds arbitrary: s)
  case Nil
  then show ?case by simp
next
  case (Cons f folds)
  obtain tr te where f: "f = (tr, te)" by (cases f)
  from Cons.prems f have tr: "list_all (\<lambda>i. i < length X_text) tr"
    and te: "list_all (\<lambda>i. i < length X_text) te" and ne: "te \<noteq> []"
    and rest: "folds_ok (length X_text) folds"
    by (simp_all add: folds_ok_def)
  from cv_fold_run [OF tr te ne assms(2) assms(3)]
  obtain r where r: "print_prediction_results
               (fold_predictions fit predict (params (cv_clf s)) X_text y (tr, te)) (rows y te) = Inr r"
    and step: "cv_fold fit predict X_text y (tr, te) s =
               Inr \<lparr> cv_clf = (cv_clf s)\<lparr>fitted :=
                        Some (fit (params (cv_clf s)) (rows X_text tr) (rows y tr))\<rparr>,
                     cv_i = cv_i s + 1,
                     accuracy = accuracy s @
                       [np_div (n_equal (fold_predictions fit predict (params (cv_clf s)) X_text y (tr, te))
                                  (rows y te)) (length te)],
                     printed = printed s @ [(cv_i s, r)] \<rparr>" (is "_ = Inr ?s1")
    by blast
  from Cons.IH [OF rest, of ?s1]
  obtain reps where reps: "list_all2 (\<lambda>f r. print_prediction_results
                       (fold_predictions fit predict (params (cv_clf s)) X_text y f) (rows y (snd f)) = Inr r)
                    folds reps"
    and run: "cv_folds fit predict X_text y folds ?s1 =
             Inr \<lparr> cv_clf = (if folds = [] then cv_clf ?s1
                              else (cv_clf ?s1)\<lparr>fitted :=
                                Some (fit (params (cv_clf ?s1)) (rows X_text (fst (last folds)))
                                        (rows y (fst (last folds))))\<rparr>),
                   cv_i = cv_i ?s1 + length folds,
                   accuracy = accuracy ?s1 @
                     map (\<lambda>f. np_div (n_equal (fold_predictions fit predict (params (cv_clf ?s1)) X_text y f)
                                        (rows y (snd f))) (length (snd f))) folds,
                   printed = printed ?s1 @ zip [cv_i ?s1..<cv_i ?s1 + length folds] reps \<rparr>"
    by auto
  have len: "length reps = length folds" using reps by (simp add: list_all2_lengthD)
  have upt: "[cv_i s..<cv_i s + length (f # folds)] = cv_i s # [cv_i s + 1..<cv_i s + 1 + length folds]"
    by (simp add: upt_rec)
  have "list_all2 (\<lambda>f r. print_prediction_results
                       (fold_predictions fit predict (params (cv_clf s)) X_text y f) (rows y (snd f)) = Inr r)
                    (f # folds) (r # reps)"
    using r reps f by simp
  moreover have "cv_folds fit predict X_text y (f # folds) s =
             Inr \<lparr> cv_clf = (if f # folds = [] then cv_clf s
                              else (cv_clf s)\<lparr>fitted :=
                                Some (fit (params (cv_clf s)) (rows X_text (fst (last (f # folds))))
                                        (rows y (fst (last (f # folds)))))\<rparr>),
                   cv_i = cv_i s + length (f # folds),
                   accuracy = accuracy s @
                     map (\<lambda>f. np_div (n_equal (fold_predictions fit predict (params (cv_clf s)) X_text y f)
                                        (rows y (snd f))) (length (snd f))) (f # folds),
                   printed = printed s @ zip [cv_i s..<cv_i s + length (f # folds)] (r # reps) \<rparr>"
    unfolding upt using step run f by simp
  ultimately show ?case by blast
qed



text \<open>
  A small data set for concrete runs: ten documents, eight of class 0 and two of class
  1, five stratified folds (three of them without a sample of class 1 in the test set), a
  fold generator that answers these folds and, as the library's does, raises ValueError
  when it is given fewer samples than folds, a fitting routine that memorises its training
  data and a prediction routine that answers with the majority class of what was
  memorised.
\<close>

definition ex_X :: "nat list" where
  "ex_X = [0, 1, 2, 3, 4, 5, 6, 7, 8, 9]"

definition ex_y :: "int list" where
  "ex_y = [0, 0, 0, 0, 0, 0, 0, 0, 1, 1]"

definition ex_folds :: "(nat list \<times> nat list) list" where
  "ex_folds =
     [([2, 3, 4, 5, 6, 7, 9], [0, 1, 8]),
      ([0, 1, 4, 5, 6, 7, 8], [2, 3, 9]),
      ([0, 1, 2, 3, 6, 7, 8, 9], [4, 5]),
      ([0, 1, 2, 3, 4, 5, 7, 8, 9], [6]),
      ([0, 1, 2, 3, 4, 5, 6, 8, 9], [7])]"

definition ex_split :: "nat \<Rightarrow> nat list \<Rightarrow> int list \<Rightarrow> error + (nat list \<times> nat list) list" where
  "ex_split n X y = (if length X < n then Inl ValueError else Inr ex_folds)"

definition ex_fit :: "unit \<Rightarrow> nat list \<Rightarrow> int list \<Rightarrow> (nat \<times> int) list" where
  "ex_fit p X y = zip X y"

definition ex_predict :: "unit \<Rightarrow> (nat \<times> int) list \<Rightarrow> nat list \<Rightarrow> int list" where
  "ex_predict p m X =
     map (\<lambda>x. if length m < 2 * length (filter (\<lambda>d. snd d = 1) m) then 1 else 0) X"

definition ex_clf :: "(unit, (nat \<times> int) list) classifier" where
  "ex_clf = \<lparr> params = (), fitted = None \<rparr>"


text \<open>
  Accuracy in the spec's words: the fraction of correct predictions on a test set, and
  the fraction of the samples of one class that are predicted as that class.
\<close>

definition fraction_correct :: "int list \<Rightarrow> int list \<Rightarrow> rat" where
  "fraction_correct y_est y_target = of_nat (n_correct y_est y_target) / of_nat (length y_target)"

definition fraction_class_correct :: "int \<Rightarrow> int list \<Rightarrow> int list \<Rightarrow> rat" where
  "fraction_class_correct c y_est y_target =
     of_nat (n_class_correct c y_est y_target) / of_nat (n_class c y_target)"

lemma n_class_zero_iff: "n_class c t = 0 \<longleftrightarrow> c \<notin> set t"
  by (auto simp add: n_class_def filter_empty_conv in_set_conv_nth)

lemma np_div_pos: "0 < b \<Longrightarrow> np_div a b = Fin (of_nat a / of_nat b)"
  by (simp add: np_div_def)

lemma np_div_zero: "np_div 0 0 = NaN"
  by (simp add: np_div_def)

lemma n_class_correct_le: "n_class_correct c e t \<le> n_class c t"
proof -
  have "filter (\<lambda>i. t ! i = c \<and> e ! i = c) [0..<length t] =
        filter (\<lambda>i. e ! i = c) (filter (\<lambda>i. t ! i = c) [0..<length t])"
    by (simp add: conj_commute)
  then show ?thesis by (simp add: n_class_correct_def n_class_def del: filter_filter)
qed

lemma print_prediction_results_fields:
  assumes "print_prediction_results e t = Inr r"
  shows "accuracy_all r = np_div (100 * n_equal e t) (length e)"
    and "accuracy_nontoxic r = np_div (100 * n_hits (masked e t 0) 0) (length (masked e t 0))"
    and "accuracy_toxic r = np_div (100 * n_hits (masked e t 1) 1) (length (masked e t 1))"
  using assms
  by (auto simp add: print_prediction_results_def py_div_def split: if_splits sum.splits)


lemma report_accuracy_class:
  assumes "print_prediction_results e t = Inr r" and l: "length e = length t"
  shows "accuracy_nontoxic r = (if 0 \<in> set t then Fin (100 * fraction_class_correct 0 e t) else NaN)"
    and "accuracy_toxic r = (if 1 \<in> set t then Fin (100 * fraction_class_correct 1 e t) else NaN)"
proof -
  from print_prediction_results_fields [OF assms(1)]
  have a0: "accuracy_nontoxic r = np_div (100 * n_hits (masked e t 0) 0) (length (masked e t 0))"
    and a1: "accuracy_toxic r = np_div (100 * n_hits (masked e t 1) 1) (length (masked e t 1))"
    by simp_all
  have *: "np_div (100 * n_class_correct c e t) (n_class c t) =
           (if c \<in> set t then Fin (100 * fraction_class_correct c e t) else NaN)" for c
  proof (cases "c \<in> set t")
    case True
    then have "0 < n_class c t" using n_class_zero_iff [of c t] by simp
    then show ?thesis using True by (simp add: np_div_pos fraction_class_correct_def)
  next
    case False
    then have z: "n_class c t = 0" by (simp add: n_class_zero_iff)
    with n_class_correct_le [of c e t] have "n_class_correct c e t = 0" by simp
    with z False show ?thesis by (simp add: np_div_zero)
  qed
  show "accuracy_nontoxic r = (if 0 \<in> set t then Fin (100 * fraction_class_correct 0 e t) else NaN)"
    using a0 l * [of 0] by (simp add: size_masked hits_masked)
  show "accuracy_toxic r = (if 1 \<in> set t then Fin (100 * fraction_class_correct 1 e t) else NaN)"
    using a1 l * [of 1] by (simp add: size_masked hits_masked)
qed

lemma foldl_np_add_Fin: "foldl np_add (Fin a) (map Fin xs) = Fin (a + sum_list xs)"
  by (induction xs arbitrary: a) (simp_all add: add.assoc)

lemma np_mean_Fin: "xs \<noteq> [] \<Longrightarrow> np_mean (map Fin xs) = Fin (sum_list xs / of_nat (length xs))"
  by (simp add: np_mean_def foldl_np_add_Fin)

lemma fold_accuracy_Fin:
  assumes "row_per_sample predict" and "snd f \<noteq> []"
  shows "np_div (n_equal (fold_predictions fit predict p X_text y f) (rows y (snd f))) (length (snd f)) =
         Fin (fraction_correct (fold_predictions fit predict p X_text y f) (rows y (snd f)))"
proof -
  have "length (fold_predictions fit predict p X_text y f) = length (rows y (snd f))"
    using assms(1) by (simp add: length_fold_predictions rows_def)
  moreover have "0 < length (snd f)" using assms(2) by simp
  ultimately show ?thesis
    by (simp add: np_div_pos n_equal_by_index fraction_correct_def rows_def)
qed

lemma folds_ok_nonempty: "folds_ok n folds \<Longrightarrow> f \<in> set folds \<Longrightarrow> snd f \<noteq> []"
  by (auto simp add: folds_ok_def list_all_iff)

lemma cross_validate_run:
  assumes split: "kf_split n_splits X_text y = Inr folds"
    and ok: "folds_ok (length X_text) folds"
    and len: "length y = length X_text"
    and pred: "row_per_sample predict"
  shows "\<exists>reps.
     list_all2 (\<lambda>f r. print_prediction_results
                  (fold_predictions fit predict (params clf) X_text y f) (rows y (snd f)) = Inr r) folds reps \<and>
     cross_validate_classifier kf_split fit predict clf X_text y =
       Inr (\<lparr> cv_clf = (if folds = [] then clf
                        else clf\<lparr>fitted := Some (fit (params clf) (rows X_text (fst (last folds)))
                                                  (rows y (fst (last folds))))\<rparr>),
               cv_i = 1 + length folds,
               accuracy = map (\<lambda>f. Fin (fraction_correct
                             (fold_predictions fit predict (params clf) X_text y f) (rows y (snd f)))) folds,
               printed = zip [1..<1 + length folds] reps \<rparr>,
            times100 (np_mean (map (\<lambda>f. Fin (fraction_correct
                             (fold_predictions fit predict (params clf) X_text y f) (rows y (snd f)))) folds)))"
proof -
  let ?s0 = "\<lparr> cv_clf = clf, cv_i = 1, accuracy = [], printed = [] \<rparr>"
  have acc: "map (\<lambda>f. np_div (n_equal (fold_predictions fit predict (params clf) X_text y f)
                                        (rows y (snd f))) (length (snd f))) folds =
             map (\<lambda>f. Fin (fraction_correct
                             (fold_predictions fit predict (params clf) X_text y f) (rows y (snd f)))) folds"
    using folds_ok_nonempty [OF ok] fold_accuracy_Fin [OF pred] by simp
  from cv_folds_run [OF ok len pred, of fit ?s0]
  obtain reps where
    "list_all2 (\<lambda>f r. print_prediction_results
                  (fold_predictions fit predict (params clf) X_text y f) (rows y (snd f)) = Inr r) folds reps"
    and "cv_folds fit predict X_text y folds ?s0 =
       Inr \<lparr> cv_clf = (if folds = [] then clf
                        else clf\<lparr>fitted := Some (fit (params clf) (rows X_text (fst (last folds)))
                                                  (rows y (fst (last folds))))\<rparr>),
               cv_i = 1 + length folds,
               accuracy = map (\<lambda>f. np_div (n_equal (fold_predictions fit predict (params clf) X_text y f)
                                        (rows y (snd f))) (length (snd f))) folds,
               printed = zip [1..<1 + length folds] reps \<rparr>"
    by auto
  then show ?thesis
    using split unfolding acc by (auto simp add: cross_validate_classifier_def)
qed

section \<open>The run of the cross-validation, written out\<close>

text \<open>
  The state of the loop of \<^verbatim>\<open>cross_validate_classifier\<close> after it has gone through the given
  folds, starting from the classifier \<open>clf\<close>: the classifier holds what fitting on the
  training rows of the last of these folds gives, the counter has advanced by one per fold,
  and there is one accuracy and one numbered report per fold, each from the predictions of
  the classifier fitted on the training rows of that very fold.
\<close>

definition cv_state_after ::
  "('p \<Rightarrow> 'x list \<Rightarrow> int list \<Rightarrow> 'm) \<Rightarrow> ('p \<Rightarrow> 'm \<Rightarrow> 'x list \<Rightarrow> int list) \<Rightarrow>
   ('p, 'm) classifier \<Rightarrow> 'x list \<Rightarrow> int list \<Rightarrow> (nat list \<times> nat list) list \<Rightarrow> ('p, 'm) cv_state" where
  "cv_state_after fit predict clf X_text y folds =
     \<lparr> cv_clf = (if folds = [] then clf
                 else clf\<lparr>fitted := Some (fit (params clf) (rows X_text (fst (last folds)))
                                           (rows y (fst (last folds))))\<rparr>),
       cv_i = 1 + length folds,
       accuracy = map (\<lambda>f. Fin (fraction_correct
                     (fold_predictions fit predict (params clf) X_text y f) (rows y (snd f)))) folds,
       printed = zip [1..<1 + length folds]
                   (map (\<lambda>f. projr (print_prediction_results
                      (fold_predictions fit predict (params clf) X_text y f) (rows y (snd f)))) folds) \<rparr>"

lemma reports_projr:
  "list_all2 (\<lambda>f r. P f = Inr r) folds reps \<Longrightarrow> reps = map (\<lambda>f. projr (P f)) folds"
  by (induction folds reps rule: list_all2_induct) simp_all

lemma np_mean_map_Fin:
  "xs \<noteq> [] \<Longrightarrow> np_mean (map (\<lambda>x. Fin (g x)) xs) = Fin (sum_list (map g xs) / of_nat (length xs))"
  using np_mean_Fin [of "map g xs"] by (simp add: comp_def)

lemma cv_folds_after:
  assumes ok: "folds_ok (length X_text) folds"
    and len: "length y = length X_text"
    and pred: "row_per_sample predict"
  shows "cv_folds fit predict X_text y folds \<lparr> cv_clf = clf, cv_i = 1, accuracy = [], printed = [] \<rparr> =
         Inr (cv_state_after fit predict clf X_text y folds)"
proof -
  let ?s0 = "\<lparr> cv_clf = clf, cv_i = 1, accuracy = [], printed = [] \<rparr>"
  have acc: "map (\<lambda>f. np_div (n_equal (fold_predictions fit predict (params clf) X_text y f)
                                        (rows y (snd f))) (length (snd f))) folds =
             map (\<lambda>f. Fin (fraction_correct
                             (fold_predictions fit predict (params clf) X_text y f) (rows y (snd f)))) folds"
    using folds_ok_nonempty [OF ok] fold_accuracy_Fin [OF pred] by simp
  from cv_folds_run [OF ok len pred, of fit ?s0]
  obtain reps where
    reps: "list_all2 (\<lambda>f r. print_prediction_results
                  (fold_predictions fit predict (params clf) X_text y f) (rows y (snd f)) = Inr r) folds reps"
    and run: "cv_folds fit predict X_text y folds ?s0 =
       Inr \<lparr> cv_clf = (if folds = [] then clf
                        else clf\<lparr>fitted := Some (fit (params clf) (rows X_text (fst (last folds)))
                                                  (rows y (fst (last folds))))\<rparr>),
               cv_i = 1 + length folds,
               accuracy = map (\<lambda>f. np_div (n_equal (fold_predictions fit predict (params clf) X_text y f)
                                        (rows y (snd f))) (length (snd f))) folds,
               printed = zip [1..<1 + length folds] reps \<rparr>"
    by auto
  from reports_projr [OF reps]
  have "reps = map (\<lambda>f. projr (print_prediction_results
                      (fold_predictions fit predict (params clf) X_text y f) (rows y (snd f)))) folds" .
  with run show ?thesis unfolding acc by (simp add: cv_state_after_def)
qed

lemma cv_folds_append:
  "cv_folds fit predict X_text y (xs @ ys) s =
     (case cv_folds fit predict X_text y xs s of
        Inl e \<Rightarrow> Inl e
      | Inr s' \<Rightarrow> cv_folds fit predict X_text y ys s')"
  by (induction xs arbitrary: s) (simp_all split: sum.splits)

lemma folds_ok_take: "folds_ok n folds \<Longrightarrow> folds_ok n (take k folds)"
  by (auto simp add: folds_ok_def list_all_iff dest: in_set_takeD)

lemma last_take_Suc: "k < length xs \<Longrightarrow> last (take (Suc k) xs) = xs ! k"
  by (simp add: take_Suc_conv_app_nth)

lemma cv_fold_after:
  assumes ok: "folds_ok (length X_text) folds"
    and len: "length y = length X_text"
    and pred: "row_per_sample predict"
    and k: "k < length folds"
  shows "cv_fold fit predict X_text y (folds ! k) (cv_state_after fit predict clf X_text y (take k folds)) =
         Inr (cv_state_after fit predict clf X_text y (take (Suc k) folds))"
proof -
  let ?s0 = "\<lparr> cv_clf = clf, cv_i = 1, accuracy = [], printed = [] \<rparr>"
  have a: "cv_folds fit predict X_text y (take k folds) ?s0 =
           Inr (cv_state_after fit predict clf X_text y (take k folds))"
    by (rule cv_folds_after [OF folds_ok_take [OF ok] len pred])
  have b: "cv_folds fit predict X_text y (take (Suc k) folds) ?s0 =
           Inr (cv_state_after fit predict clf X_text y (take (Suc k) folds))"
    by (rule cv_folds_after [OF folds_ok_take [OF ok] len pred])
  have "take (Suc k) folds = take k folds @ [folds ! k]"
    using k by (simp add: take_Suc_conv_app_nth)
  with b have "cv_folds fit predict X_text y (take k folds @ [folds ! k]) ?s0 =
           Inr (cv_state_after fit predict clf X_text y (take (Suc k) folds))" by simp
  then show ?thesis
    unfolding cv_folds_append a by (simp split: sum.splits)
qed

lemma fold_report_printed:
  assumes ok: "folds_ok (length X_text) folds"
    and pred: "row_per_sample predict"
    and k: "k < length folds"
  shows "print_prediction_results
           (fold_predictions fit predict (params clf) X_text y (folds ! k)) (rows y (snd (folds ! k))) =
         Inr (snd (printed (cv_state_after fit predict clf X_text y folds) ! k))"
    and "fst (printed (cv_state_after fit predict clf X_text y folds) ! k) = k + 1"
    and "length (fold_predictions fit predict (params clf) X_text y (folds ! k)) =
         length (rows y (snd (folds ! k)))"
    and "rows y (snd (folds ! k)) \<noteq> []"
proof -
  let ?e = "fold_predictions fit predict (params clf) X_text y (folds ! k)"
  let ?t = "rows y (snd (folds ! k))"
  show le: "length ?e = length ?t"
    using pred by (simp add: length_fold_predictions rows_def)
  have "snd (folds ! k) \<noteq> []" using folds_ok_nonempty [OF ok] k by simp
  then show ne: "?t \<noteq> []" by (simp add: rows_def)
  from print_prediction_results_ok [OF le ne] obtain r where r: "print_prediction_results ?e ?t = Inr r"
    by blast
  show "print_prediction_results ?e ?t = Inr (snd (printed (cv_state_after fit predict clf X_text y folds) ! k))"
    using k r by (simp add: cv_state_after_def)
  have "[1..<1 + length folds] ! k = 1 + k"
    using k by (intro nth_upt) simp
  then show "fst (printed (cv_state_after fit predict clf X_text y folds) ! k) = k + 1"
    using k by (simp add: cv_state_after_def del: upt_Suc)
qed

lemma cross_validate_after:
  assumes split: "kf_split n_splits X_text y = Inr folds"
    and ok: "folds_ok (length X_text) folds"
    and len: "length y = length X_text"
    and pred: "row_per_sample predict"
  shows "cross_validate_classifier kf_split fit predict clf X_text y =
         Inr (cv_state_after fit predict clf X_text y folds,
              (if folds = [] then NaN
               else Fin (100 * (sum_list (map (\<lambda>f. fraction_correct
                      (fold_predictions fit predict (params clf) X_text y f) (rows y (snd f))) folds) /
                    of_nat (length folds)))))"
proof -
  have m: "times100 (np_mean (accuracy (cv_state_after fit predict clf X_text y folds))) =
        (if folds = [] then NaN
               else Fin (100 * (sum_list (map (\<lambda>f. fraction_correct
                      (fold_predictions fit predict (params clf) X_text y f) (rows y (snd f))) folds) /
                    of_nat (length folds))))"
  proof (cases "folds = []")
    case True
    then show ?thesis by (simp add: cv_state_after_def np_mean_def)
  next
    case False
    then show ?thesis
      using np_mean_map_Fin [OF False, of "\<lambda>f. fraction_correct
                      (fold_predictions fit predict (params clf) X_text y f) (rows y (snd f))"]
      by (simp add: cv_state_after_def)
  qed
  show ?thesis
    using split cv_folds_after [OF ok len pred, of fit clf] m
    by (simp add: cross_validate_classifier_def)
qed



section \<open>The cross-validation report\<close>

lemma ex_split_folds: "ex_split n_splits ex_X ex_y = Inr ex_folds"
  by (simp add: ex_split_def n_splits_def ex_X_def)


lemma ex_folds_ok: "folds_ok (length ex_X) ex_folds"
  by (simp add: folds_ok_def ex_folds_def ex_X_def)

lemma ex_row_per_sample: "row_per_sample ex_predict"
  by (simp add: row_per_sample_def ex_predict_def)

lemma ex_lengths: "length ex_y = length ex_X"
  by (simp add: ex_y_def ex_X_def)






section \<open>A class that is absent from a test fold\<close>

lemma Fin_list_no_NaN: "NaN \<notin> set (map (\<lambda>x. Fin (g x)) xs)"
  by auto

text \<open>
  Claim C7. Let the fold generator yield its folds (every position inside the data, no
  test set empty), let the classifier predict one label per row, and let the test set of
  fold \<open>k\<close> hold no sample of class \<open>c\<close>, one of the two classes. Then the whole call
  returns normally. In the report of fold \<open>k\<close> the accuracy of class \<open>c\<close> is not a number:
  it is recorded there as NaN, zero divided by zero. It is kept out of the aggregate: the
  list that is averaged holds one entry per fold, the overall accuracy of the fold, each a
  finite number, and no NaN; and the mean printed at the end is the finite mean of these
  entries, so no NaN reaches it.
\<close>

theorem absent_class_kept_out_of_mean:
  assumes split: "kf_split n_splits X_text y = Inr folds"
    and ok: "folds_ok (length X_text) folds"
    and len: "length y = length X_text"
    and pred: "row_per_sample predict"
    and k: "k < length folds"
    and cls: "c = 0 \<or> c = 1"
    and absent: "c \<notin> set (rows y (snd (folds ! k)))"
  shows "cross_validate_classifier kf_split fit predict clf X_text y =
           Inr (cv_state_after fit predict clf X_text y folds,
                Fin (100 * (sum_list (map (\<lambda>f. fraction_correct
                       (fold_predictions fit predict (params clf) X_text y f) (rows y (snd f))) folds) /
                     of_nat (length folds)))) \<and>
         print_prediction_results
           (fold_predictions fit predict (params clf) X_text y (folds ! k)) (rows y (snd (folds ! k))) =
           Inr (snd (printed (cv_state_after fit predict clf X_text y folds) ! k)) \<and>
         (if c = 0
          then accuracy_nontoxic (snd (printed (cv_state_after fit predict clf X_text y folds) ! k))
          else accuracy_toxic (snd (printed (cv_state_after fit predict clf X_text y folds) ! k))) = NaN \<and>
         accuracy (cv_state_after fit predict clf X_text y folds) =
           map (\<lambda>f. Fin (fraction_correct
                  (fold_predictions fit predict (params clf) X_text y f) (rows y (snd f)))) folds \<and>
         NaN \<notin> set (accuracy (cv_state_after fit predict clf X_text y folds))"
proof -
  let ?s = "cv_state_after fit predict clf X_text y folds"
  from k have ne: "folds \<noteq> []" by auto
  have run: "cross_validate_classifier kf_split fit predict clf X_text y =
           Inr (?s, Fin (100 * (sum_list (map (\<lambda>f. fraction_correct
                       (fold_predictions fit predict (params clf) X_text y f) (rows y (snd f))) folds) /
                     of_nat (length folds))))"
    using cross_validate_after [where kf_split = kf_split and fit = fit and clf = clf, OF split ok len pred]
      ne by simp
  note rep1 = fold_report_printed(1) [where fit = fit and clf = clf and y = y, OF ok pred k]
  note rep3 = fold_report_printed(3) [where fit = fit and clf = clf and y = y, OF ok pred k]
  have nan: "(if c = 0 then accuracy_nontoxic (snd (printed ?s ! k))
              else accuracy_toxic (snd (printed ?s ! k))) = NaN"
    using report_accuracy_class [OF rep1 rep3] cls absent by auto
  have acc: "accuracy ?s = map (\<lambda>f. Fin (fraction_correct
                  (fold_predictions fit predict (params clf) X_text y f) (rows y (snd f)))) folds"
    by (simp add: cv_state_after_def)
  have "NaN \<notin> set (accuracy ?s)" unfolding acc by (rule Fin_list_no_NaN)
  with run rep1 nan acc show ?thesis by blast
qed

theorem absent_class_kept_out_of_mean_witness:
  "ex_split n_splits ex_X ex_y = Inr ex_folds \<and> folds_ok (length ex_X) ex_folds \<and>
   length ex_y = length ex_X \<and> row_per_sample ex_predict \<and> 2 < length ex_folds \<and>
   (1::int) \<notin> set (rows ex_y (snd (ex_folds ! 2))) \<and>
   cross_validate_classifier ex_split ex_fit ex_predict ex_clf ex_X ex_y =
     Inr (cv_state_after ex_fit ex_predict ex_clf ex_X ex_y ex_folds, Fin (260 / 3)) \<and>
   accuracy_toxic (snd (printed (cv_state_after ex_fit ex_predict ex_clf ex_X ex_y ex_folds) ! 2)) = NaN \<and>
   accuracy (cv_state_after ex_fit ex_predict ex_clf ex_X ex_y ex_folds) =
     [Fin (2 / 3), Fin (2 / 3), Fin 1, Fin 1, Fin 1] \<and>
   NaN \<notin> set (accuracy (cv_state_after ex_fit ex_predict ex_clf ex_X ex_y ex_folds))"
proof -
  have k: "2 < length ex_folds" by (simp add: ex_folds_def)
  have cls: "(1::int) = 0 \<or> (1::int) = 1" by simp
  have absent: "(1::int) \<notin> set (rows ex_y (snd (ex_folds ! 2)))"
    by (simp add: rows_def ex_y_def ex_folds_def)
  have v3: "100 * (sum_list (map (\<lambda>f. fraction_correct
                      (fold_predictions ex_fit ex_predict (params ex_clf) ex_X ex_y f) (rows ex_y (snd f))) ex_folds) /
                   of_nat (length ex_folds)) = 260 / 3"
    by code_simp
  have v4: "map (\<lambda>f. Fin (fraction_correct
                  (fold_predictions ex_fit ex_predict (params ex_clf) ex_X ex_y f) (rows ex_y (snd f)))) ex_folds =
            [Fin (2 / 3), Fin (2 / 3), Fin 1, Fin 1, Fin 1]"
    by code_simp
  from absent_class_kept_out_of_mean
         [where kf_split = ex_split and fit = ex_fit and clf = ex_clf,
          OF ex_split_folds ex_folds_ok ex_lengths ex_row_per_sample k cls absent]
  have "cross_validate_classifier ex_split ex_fit ex_predict ex_clf ex_X ex_y =
     Inr (cv_state_after ex_fit ex_predict ex_clf ex_X ex_y ex_folds, Fin (260 / 3)) \<and>
   accuracy_toxic (snd (printed (cv_state_after ex_fit ex_predict ex_clf ex_X ex_y ex_folds) ! 2)) = NaN \<and>
   accuracy (cv_state_after ex_fit ex_predict ex_clf ex_X ex_y ex_folds) =
     [Fin (2 / 3), Fin (2 / 3), Fin 1, Fin 1, Fin 1] \<and>
   NaN \<notin> set (accuracy (cv_state_after ex_fit ex_predict ex_clf ex_X ex_y ex_folds))"
    unfolding v3 v4 by simp
  then show ?thesis
    using k absent ex_split_folds ex_folds_ok ex_lengths ex_row_per_sample by simp
qed

section \<open>What the cross-validation leaves in the classifier\<close>

text \<open>
  Claim C10. \<^verbatim>\<open>cross_validate_classifier\<close> fits the classifier object it is given in
  place, fold after fold. The loop starts in the state that holds the caller's object; the
  turn for fold \<open>k\<close> takes the state after the first \<open>k\<close> folds to the state after the first
  \<open>k + 1\<close> folds, in which the object holds what fitting on the training rows of fold \<open>k\<close>
  gives (its hyperparameters unchanged) and in which the accuracy recorded for fold \<open>k\<close> is
  that of the predictions of the object so fitted; the loop over all the folds ends in the
  state after all of them. So when the call of the last cell returns,
  \<^verbatim>\<open>grid_search.best_estimator_\<close> holds what fitting on the training rows of the last fold
  gives: what it had learned before is neither put back nor replaced by a fit on all the
  samples.
\<close>

theorem best_estimator_left_on_last_fold:
  assumes split: "kf_split n_splits X_text target = Inr folds"
    and ne: "folds \<noteq> []"
    and ok: "folds_ok (length X_text) folds"
    and len: "length target = length X_text"
    and pred: "row_per_sample predict"
  shows "validate_best_estimator kf_split fit predict grid_search X_text target =
           Inr (grid_search\<lparr>best_estimator := (best_estimator grid_search)\<lparr>fitted :=
                  Some (fit (params (best_estimator grid_search))
                          (rows X_text (fst (last folds))) (rows target (fst (last folds))))\<rparr>\<rparr>,
                cv_state_after fit predict (best_estimator grid_search) X_text target folds,
                Fin (100 * (sum_list (map (\<lambda>f. fraction_correct
                       (fold_predictions fit predict (params (best_estimator grid_search)) X_text target f)
                       (rows target (snd f))) folds) / of_nat (length folds)))) \<and>
         cv_state_after fit predict (best_estimator grid_search) X_text target [] =
           \<lparr> cv_clf = best_estimator grid_search, cv_i = 1, accuracy = [], printed = [] \<rparr> \<and>
         (\<forall>k<length folds.
            cv_fold fit predict X_text target (folds ! k)
              (cv_state_after fit predict (best_estimator grid_search) X_text target (take k folds)) =
              Inr (cv_state_after fit predict (best_estimator grid_search) X_text target (take (Suc k) folds)) \<and>
            cv_clf (cv_state_after fit predict (best_estimator grid_search) X_text target (take (Suc k) folds)) =
              (best_estimator grid_search)\<lparr>fitted :=
                 Some (fit (params (best_estimator grid_search))
                         (rows X_text (fst (folds ! k))) (rows target (fst (folds ! k))))\<rparr> \<and>
            cv_i (cv_state_after fit predict (best_estimator grid_search) X_text target (take (Suc k) folds)) =
              k + 2 \<and>
            length (accuracy
              (cv_state_after fit predict (best_estimator grid_search) X_text target (take (Suc k) folds))) =
              k + 1 \<and>
            accuracy (cv_state_after fit predict (best_estimator grid_search) X_text target (take (Suc k) folds)) ! k =
              Fin (fraction_correct
                     (predict (params (best_estimator grid_search))
                        (fit (params (best_estimator grid_search))
                           (rows X_text (fst (folds ! k))) (rows target (fst (folds ! k))))
                        (rows X_text (snd (folds ! k))))
                     (rows target (snd (folds ! k))))) \<and>
         cv_folds fit predict X_text target folds
           \<lparr> cv_clf = best_estimator grid_search, cv_i = 1, accuracy = [], printed = [] \<rparr> =
           Inr (cv_state_after fit predict (best_estimator grid_search) X_text target folds) \<and>
         cv_clf (cv_state_after fit predict (best_estimator grid_search) X_text target folds) =
           (best_estimator grid_search)\<lparr>fitted :=
              Some (fit (params (best_estimator grid_search))
                      (rows X_text (fst (last folds))) (rows target (fst (last folds))))\<rparr>"
proof -
  let ?clf = "best_estimator grid_search"
  let ?after = "cv_state_after fit predict ?clf X_text target"
  have last: "cv_clf (?after folds) =
           ?clf\<lparr>fitted := Some (fit (params ?clf)
                      (rows X_text (fst (last folds))) (rows target (fst (last folds))))\<rparr>"
    using ne by (simp add: cv_state_after_def)
  have run: "cross_validate_classifier kf_split fit predict ?clf X_text target =
         Inr (?after folds,
              Fin (100 * (sum_list (map (\<lambda>f. fraction_correct
                      (fold_predictions fit predict (params ?clf) X_text target f) (rows target (snd f))) folds) /
                    of_nat (length folds))))"
    using cross_validate_after [where kf_split = kf_split and fit = fit and clf = ?clf, OF split ok len pred]
      ne by simp
  have call: "validate_best_estimator kf_split fit predict grid_search X_text target =
           Inr (grid_search\<lparr>best_estimator := ?clf\<lparr>fitted :=
                  Some (fit (params ?clf)
                          (rows X_text (fst (last folds))) (rows target (fst (last folds))))\<rparr>\<rparr>,
                ?after folds,
                Fin (100 * (sum_list (map (\<lambda>f. fraction_correct
                       (fold_predictions fit predict (params ?clf) X_text target f)
                       (rows target (snd f))) folds) / of_nat (length folds))))"
    using run last by (simp add: validate_best_estimator_def)
  have start: "?after [] = \<lparr> cv_clf = ?clf, cv_i = 1, accuracy = [], printed = [] \<rparr>"
    by (simp add: cv_state_after_def)
  have turns: "\<forall>k<length folds.
            cv_fold fit predict X_text target (folds ! k) (?after (take k folds)) =
              Inr (?after (take (Suc k) folds)) \<and>
            cv_clf (?after (take (Suc k) folds)) =
              ?clf\<lparr>fitted := Some (fit (params ?clf)
                         (rows X_text (fst (folds ! k))) (rows target (fst (folds ! k))))\<rparr> \<and>
            cv_i (?after (take (Suc k) folds)) = k + 2 \<and>
            length (accuracy (?after (take (Suc k) folds))) = k + 1 \<and>
            accuracy (?after (take (Suc k) folds)) ! k =
              Fin (fraction_correct
                     (predict (params ?clf)
                        (fit (params ?clf) (rows X_text (fst (folds ! k))) (rows target (fst (folds ! k))))
                        (rows X_text (snd (folds ! k))))
                     (rows target (snd (folds ! k))))"
  proof (intro allI impI)
    fix k assume k: "k < length folds"
    have t: "take (Suc k) folds = take k folds @ [folds ! k]"
      using k by (simp add: take_Suc_conv_app_nth)
    have lk: "length (take k folds) = k" using k by simp
    have "cv_fold fit predict X_text target (folds ! k) (?after (take k folds)) =
              Inr (?after (take (Suc k) folds))"
      by (rule cv_fold_after [OF ok len pred k])
    moreover have "cv_clf (?after (take (Suc k) folds)) =
              ?clf\<lparr>fitted := Some (fit (params ?clf)
                         (rows X_text (fst (folds ! k))) (rows target (fst (folds ! k))))\<rparr>"
      unfolding t by (simp add: cv_state_after_def)
    moreover have "cv_i (?after (take (Suc k) folds)) = k + 2"
      unfolding t using lk by (simp add: cv_state_after_def)
    moreover have "length (accuracy (?after (take (Suc k) folds))) = k + 1"
      unfolding t using lk by (simp add: cv_state_after_def)
    moreover have "accuracy (?after (take (Suc k) folds)) ! k =
              Fin (fraction_correct
                     (predict (params ?clf)
                        (fit (params ?clf) (rows X_text (fst (folds ! k))) (rows target (fst (folds ! k))))
                        (rows X_text (snd (folds ! k))))
                     (rows target (snd (folds ! k))))"
      unfolding t using lk by (simp add: cv_state_after_def fold_predictions_def nth_append)
    ultimately show "cv_fold fit predict X_text target (folds ! k) (?after (take k folds)) =
              Inr (?after (take (Suc k) folds)) \<and>
            cv_clf (?after (take (Suc k) folds)) =
              ?clf\<lparr>fitted := Some (fit (params ?clf)
                         (rows X_text (fst (folds ! k))) (rows target (fst (folds ! k))))\<rparr> \<and>
            cv_i (?after (take (Suc k) folds)) = k + 2 \<and>
            length (accuracy (?after (take (Suc k) folds))) = k + 1 \<and>
            accuracy (?after (take (Suc k) folds)) ! k =
              Fin (fraction_correct
                     (predict (params ?clf)
                        (fit (params ?clf) (rows X_text (fst (folds ! k))) (rows target (fst (folds ! k))))
                        (rows X_text (snd (folds ! k))))
                     (rows target (snd (folds ! k))))"
      by blast
  qed
  have loop: "cv_folds fit predict X_text target folds
           \<lparr> cv_clf = ?clf, cv_i = 1, accuracy = [], printed = [] \<rparr> = Inr (?after folds)"
    by (rule cv_folds_after [OF ok len pred])
  from call start turns loop last show ?thesis by blast
qed


text \<open>
  A grid search object whose best estimator was fitted on all ten documents of the small
  data set, as the grid search leaves it.
\<close>

definition ex_grid_search :: "(unit, (nat \<times> int) list) grid_search_object" where
  "ex_grid_search = \<lparr> best_estimator = \<lparr> params = (), fitted = Some (zip ex_X ex_y) \<rparr>, best_score = Fin (4 / 5) \<rparr>"

theorem best_estimator_left_on_last_fold_witness:
  "ex_split n_splits ex_X ex_y = Inr ex_folds \<and> ex_folds \<noteq> [] \<and>
   folds_ok (length ex_X) ex_folds \<and> length ex_y = length ex_X \<and> row_per_sample ex_predict \<and>
   validate_best_estimator ex_split ex_fit ex_predict ex_grid_search ex_X ex_y =
     Inr (ex_grid_search\<lparr>best_estimator :=
            \<lparr> params = (),
              fitted = Some [(0, 0), (1, 0), (2, 0), (3, 0), (4, 0), (5, 0), (6, 0), (8, 1), (9, 1)] \<rparr>\<rparr>,
          cv_state_after ex_fit ex_predict (best_estimator ex_grid_search) ex_X ex_y ex_folds,
          Fin (260 / 3)) \<and>
   fitted (best_estimator ex_grid_search) =
     Some [(0, 0), (1, 0), (2, 0), (3, 0), (4, 0), (5, 0), (6, 0), (7, 0), (8, 1), (9, 1)] \<and>
   ex_fit () ex_X ex_y = [(0, 0), (1, 0), (2, 0), (3, 0), (4, 0), (5, 0), (6, 0), (7, 0), (8, 1), (9, 1)] \<and>
   cv_fold ex_fit ex_predict ex_X ex_y (ex_folds ! 0)
     \<lparr> cv_clf = best_estimator ex_grid_search, cv_i = 1, accuracy = [], printed = [] \<rparr> =
     Inr (cv_state_after ex_fit ex_predict (best_estimator ex_grid_search) ex_X ex_y (take 1 ex_folds)) \<and>
   cv_clf (cv_state_after ex_fit ex_predict (best_estimator ex_grid_search) ex_X ex_y (take 1 ex_folds)) =
     \<lparr> params = (), fitted = Some [(2, 0), (3, 0), (4, 0), (5, 0), (6, 0), (7, 0), (9, 1)] \<rparr> \<and>
   accuracy (cv_state_after ex_fit ex_predict (best_estimator ex_grid_search) ex_X ex_y (take 1 ex_folds)) =
     [Fin (2 / 3)]"
proof -
  have ne: "ex_folds \<noteq> []" by (simp add: ex_folds_def)
  have k0: "0 < length ex_folds" by (simp add: ex_folds_def)
  note inst = best_estimator_left_on_last_fold
         [where kf_split = ex_split and fit = ex_fit and grid_search = ex_grid_search,
          OF ex_split_folds ne ex_folds_ok ex_lengths ex_row_per_sample]
  have last: "(best_estimator ex_grid_search)\<lparr>fitted :=
                     Some (ex_fit (params (best_estimator ex_grid_search))
                             (rows ex_X (fst (last ex_folds))) (rows ex_y (fst (last ex_folds))))\<rparr> =
              \<lparr> params = (),
                 fitted = Some [(0, 0), (1, 0), (2, 0), (3, 0), (4, 0), (5, 0), (6, 0), (8, 1), (9, 1)] \<rparr>"
    by (simp add: ex_grid_search_def ex_fit_def rows_def ex_folds_def ex_X_def ex_y_def)
  have first: "(best_estimator ex_grid_search)\<lparr>fitted :=
                     Some (ex_fit (params (best_estimator ex_grid_search))
                             (rows ex_X (fst (ex_folds ! 0))) (rows ex_y (fst (ex_folds ! 0))))\<rparr> =
              \<lparr> params = (), fitted = Some [(2, 0), (3, 0), (4, 0), (5, 0), (6, 0), (7, 0), (9, 1)] \<rparr>"
    by (simp add: ex_grid_search_def ex_fit_def rows_def ex_folds_def ex_X_def ex_y_def)
  have v3: "100 * (sum_list (map (\<lambda>f. fraction_correct
                      (fold_predictions ex_fit ex_predict (params (best_estimator ex_grid_search)) ex_X ex_y f)
                      (rows ex_y (snd f))) ex_folds) / of_nat (length ex_folds)) = 260 / 3"
    by code_simp
  have before: "fitted (best_estimator ex_grid_search) =
     Some [(0, 0), (1, 0), (2, 0), (3, 0), (4, 0), (5, 0), (6, 0), (7, 0), (8, 1), (9, 1)]"
    by (simp add: ex_grid_search_def ex_X_def ex_y_def)
  have full: "ex_fit () ex_X ex_y = [(0, 0), (1, 0), (2, 0), (3, 0), (4, 0), (5, 0), (6, 0), (7, 0), (8, 1), (9, 1)]"
    by (simp add: ex_fit_def ex_X_def ex_y_def)
  have acc0: "Fin (fraction_correct
                     (ex_predict (params (best_estimator ex_grid_search))
                        (ex_fit (params (best_estimator ex_grid_search))
                           (rows ex_X (fst (ex_folds ! 0))) (rows ex_y (fst (ex_folds ! 0))))
                        (rows ex_X (snd (ex_folds ! 0))))
                     (rows ex_y (snd (ex_folds ! 0)))) = Fin (2 / 3)"
    by code_simp
  from inst have call: "validate_best_estimator ex_split ex_fit ex_predict ex_grid_search ex_X ex_y =
     Inr (ex_grid_search\<lparr>best_estimator :=
            \<lparr> params = (),
              fitted = Some [(0, 0), (1, 0), (2, 0), (3, 0), (4, 0), (5, 0), (6, 0), (8, 1), (9, 1)] \<rparr>\<rparr>,
          cv_state_after ex_fit ex_predict (best_estimator ex_grid_search) ex_X ex_y ex_folds,
          Fin (260 / 3))"
    unfolding last v3 by blast
  from inst have start: "cv_state_after ex_fit ex_predict (best_estimator ex_grid_search) ex_X ex_y [] =
           \<lparr> cv_clf = best_estimator ex_grid_search, cv_i = 1, accuracy = [], printed = [] \<rparr>"
    by blast
  from inst k0 have turn: "cv_fold ex_fit ex_predict ex_X ex_y (ex_folds ! 0)
              (cv_state_after ex_fit ex_predict (best_estimator ex_grid_search) ex_X ex_y (take 0 ex_folds)) =
              Inr (cv_state_after ex_fit ex_predict (best_estimator ex_grid_search) ex_X ex_y (take (Suc 0) ex_folds))"
    and clf0: "cv_clf (cv_state_after ex_fit ex_predict (best_estimator ex_grid_search) ex_X ex_y (take (Suc 0) ex_folds)) =
              (best_estimator ex_grid_search)\<lparr>fitted :=
                 Some (ex_fit (params (best_estimator ex_grid_search))
                         (rows ex_X (fst (ex_folds ! 0))) (rows ex_y (fst (ex_folds ! 0))))\<rparr>"
    and l0: "length (accuracy (cv_state_after ex_fit ex_predict (best_estimator ex_grid_search) ex_X ex_y
                (take (Suc 0) ex_folds))) = 0 + 1"
    and a0: "accuracy (cv_state_after ex_fit ex_predict (best_estimator ex_grid_search) ex_X ex_y
                (take (Suc 0) ex_folds)) ! 0 =
              Fin (fraction_correct
                     (ex_predict (params (best_estimator ex_grid_search))
                        (ex_fit (params (best_estimator ex_grid_search))
                           (rows ex_X (fst (ex_folds ! 0))) (rows ex_y (fst (ex_folds ! 0))))
                        (rows ex_X (snd (ex_folds ! 0))))
                     (rows ex_y (snd (ex_folds ! 0))))"
    by blast+
  from l0 a0 have acc1: "accuracy (cv_state_after ex_fit ex_predict (best_estimator ex_grid_search) ex_X ex_y
                (take 1 ex_folds)) = [Fin (2 / 3)]"
    unfolding acc0 by (cases "accuracy (cv_state_after ex_fit ex_predict (best_estimator ex_grid_search) ex_X ex_y
                (take (Suc 0) ex_folds))") simp_all
  from turn start have turn': "cv_fold ex_fit ex_predict ex_X ex_y (ex_folds ! 0)
     \<lparr> cv_clf = best_estimator ex_grid_search, cv_i = 1, accuracy = [], printed = [] \<rparr> =
     Inr (cv_state_after ex_fit ex_predict (best_estimator ex_grid_search) ex_X ex_y (take 1 ex_folds))"
    by simp
  from clf0 have clf1: "cv_clf (cv_state_after ex_fit ex_predict (best_estimator ex_grid_search) ex_X ex_y (take 1 ex_folds)) =
     \<lparr> params = (), fitted = Some [(2, 0), (3, 0), (4, 0), (5, 0), (6, 0), (7, 0), (9, 1)] \<rparr>"
    unfolding first by simp
  show ?thesis
    using ne ex_split_folds ex_folds_ok ex_lengths ex_row_per_sample call before full turn' clf1 acc1
    by blast
qed

section \<open>The parameter grids of the notebooks\<close>

text \<open>
  The values the notebooks put into a parameter grid: strings, ints, floats (a decimal
  literal is kept as the rational it denotes), booleans, None and tuples.
\<close>

datatype pyval = PStr string | PInt int | PFloat rat | PBool bool | PNone | PTuple "pyval list"

text \<open>
  The three \<^verbatim>\<open>parameters\<close> dictionaries of the notebooks (the entries that are not commented
  out), each as an association list with its parameter names in lexicographic order: the
  grid of the classifier alone, the grid of the vectorizer and classifier pipeline, and the
  grid of the toxic-comment pipeline.
\<close>

definition parameters_part_1 :: "(string \<times> pyval list) list" where
  "parameters_part_1 =
     [(''n_iter'', [PInt 5, PInt 10, PInt 20, PInt 50, PInt 80]),
      (''penalty'', [PStr ''none'', PStr ''l2'', PStr ''l1'', PStr ''elasticnet''])]"

definition parameters_part_2 :: "(string \<times> pyval list) list" where
  "parameters_part_2 =
     [(''clf__penalty'', [PStr ''none'', PStr ''l2'', PStr ''l1'', PStr ''elasticnet'']),
      (''vect__max_df'', [PFloat (1 / 10), PFloat (1 / 4), PFloat (1 / 2), PFloat (3 / 4)]),
      (''vect__min_df'', [PInt 1, PInt 2, PInt 5]),
      (''vect__ngram_range'',
         [PTuple [PInt 1, PInt 1], PTuple [PInt 1, PInt 2], PTuple [PInt 2, PInt 2]]),
      (''vect__use_idf'', [PBool True, PBool False])]"

definition parameters_toxic :: "(string \<times> pyval list) list" where
  "parameters_toxic =
     [(''tfidf__ngram_range'',
         [PTuple [PInt 1, PInt 1], PTuple [PInt 1, PInt 2], PTuple [PInt 2, PInt 2],
          PTuple [PInt 1, PInt 3], PTuple [PInt 3, PInt 3]]),
      (''tfidf__stop_words'', [PStr ''english'', PNone])]"

section \<open>The grid search engine of the spec\<close>

text \<open>
  Modelled from the spec: the enumeration of the candidates is done inside the library's
  \<^verbatim>\<open>GridSearchCV\<close>, which the notebooks only call. The spec's step 1: "Enumerate the full
  Cartesian product of the grid into an ordered sequence of CandidateAssignments
  (deterministic order -- e.g., lexicographic over parameter names, then value index)". A
  candidate assigns one value to every parameter name; the values of the last parameter
  change fastest.
\<close>

fun candidates :: "(string \<times> 'v list) list \<Rightarrow> (string \<times> 'v) list list" where
  "candidates [] = [[]]"
| "candidates ((p, vs) # grid) = concat (map (\<lambda>v. map (\<lambda>c. (p, v) # c) (candidates grid)) vs)"

text \<open>
  Modelled from the spec: the table of ScoreRecords, "one (CandidateAssignment,
  fold-averaged accuracy) pair" per candidate, in the order of the enumeration (steps 2 to
  5). The cross-validated score of a candidate is the parameter \<open>evaluate\<close>.
\<close>

definition score_table ::
  "((string \<times> 'v) list \<Rightarrow> 's) \<Rightarrow> (string \<times> 'v list) list \<Rightarrow> ((string \<times> 'v) list \<times> 's) list" where
  "score_table evaluate grid = map (\<lambda>c. (c, evaluate c)) (candidates grid)"

text \<open>
  Modelled from the spec: a CandidateAssignment of a grid is "one concrete choice of a
  single value for every parameter in the grid".
\<close>

definition assigns :: "(string \<times> 'v list) list \<Rightarrow> (string \<times> 'v) list \<Rightarrow> bool" where
  "assigns grid c = list_all2 (\<lambda>pv qv. fst qv = fst pv \<and> snd qv \<in> set (snd pv)) grid c"

lemma length_candidates:
  "length (candidates grid) = prod_list (map (\<lambda>pv. length (snd pv)) grid)"
proof (induction grid)
  case Nil
  then show ?case by simp
next
  case (Cons pv grid)
  obtain p vs where pv: "pv = (p, vs)" by (cases pv)
  have "length (concat (map (\<lambda>v. map (\<lambda>c. (p, v) # c) (candidates grid)) vs)) =
        length vs * length (candidates grid)"
    by (induction vs) simp_all
  with Cons pv show ?case by simp
qed

lemma set_candidates: "set (candidates grid) = {c. assigns grid c}"
proof (induction grid)
  case Nil
  then show ?case by (auto simp add: assigns_def)
next
  case (Cons pv grid)
  obtain p vs where pv: "pv = (p, vs)" by (cases pv)
  show ?case
  proof (intro set_eqI iffI)
    fix c assume "c \<in> set (candidates (pv # grid))"
    then obtain v c' where "v \<in> set vs" "c' \<in> set (candidates grid)" "c = (p, v) # c'"
      using pv by auto
    with Cons.IH show "c \<in> {c. assigns (pv # grid) c}"
      using pv by (simp add: assigns_def)
  next
    fix c assume "c \<in> {c. assigns (pv # grid) c}"
    then have a: "list_all2 (\<lambda>pv qv. fst qv = fst pv \<and> snd qv \<in> set (snd pv)) (pv # grid) c"
      by (simp add: assigns_def)
    then obtain qv c' where c: "c = qv # c'" and q: "fst qv = p" "snd qv \<in> set vs"
      and r: "assigns grid c'"
      using pv by (auto simp add: list_all2_Cons1 assigns_def)
    from r Cons.IH have "c' \<in> set (candidates grid)" by simp
    moreover have "qv = (p, snd qv)" using q by (cases qv) simp
    ultimately show "c \<in> set (candidates (pv # grid))"
      using pv c q by force
  qed
qed

lemma concat_map_Nil: "concat (map (\<lambda>v. []) vs) = []"
  by (induction vs) simp_all

lemma distinct_candidates:
  "list_all (\<lambda>pv. distinct (snd pv)) grid \<Longrightarrow> distinct (candidates grid)"
proof (induction grid)
  case Nil
  then show ?case by simp
next
  case (Cons pv grid)
  obtain p vs where pv: "pv = (p, vs)" by (cases pv)
  from Cons have d: "distinct (candidates grid)" and dv: "distinct vs"
    using pv by simp_all
  have "distinct (concat (map (\<lambda>v. map (\<lambda>c. (p, v) # c) (candidates grid)) vs))"
  proof (cases "candidates grid")
    case Nil
    then show ?thesis by (simp add: concat_map_Nil)
  next
    case (Cons c cs)
    show ?thesis
    proof (rule distinct_concat)
      show "distinct (map (\<lambda>v. map (\<lambda>c. (p, v) # c) (candidates grid)) vs)"
        using dv Cons by (auto simp add: distinct_map inj_on_def)
    next
      fix ys assume "ys \<in> set (map (\<lambda>v. map (\<lambda>c. (p, v) # c) (candidates grid)) vs)"
      then show "distinct ys" using d by (auto simp add: distinct_map inj_on_def)
    next
      fix ys zs
      assume "ys \<in> set (map (\<lambda>v. map (\<lambda>c. (p, v) # c) (candidates grid)) vs)"
        "zs \<in> set (map (\<lambda>v. map (\<lambda>c. (p, v) # c) (candidates grid)) vs)" "ys \<noteq> zs"
      then show "set ys \<inter> set zs = {}" by auto
    qed
  qed
  then show ?case using pv by simp
qed


text \<open>
  Claim C1, as far as it holds. For every grid the table has exactly as many rows as
  the product of the lengths of the value sequences, one per enumerated candidate; the
  candidates enumerated are exactly the assignments of one value of its sequence to every
  parameter (none is skipped); and when no sequence repeats a value, no candidate occurs
  twice. The grid of the first notebook gives 20 candidates and the grid of the second
  288, all different.
\<close>

theorem grid_candidates:
  "length (score_table evaluate grid) = prod_list (map (\<lambda>pv. length (snd pv)) grid) \<and>
   map fst (score_table evaluate grid) = candidates grid \<and>
   set (candidates grid) = {c. assigns grid c} \<and>
   (list_all (\<lambda>pv. distinct (snd pv)) grid \<longrightarrow> distinct (candidates grid)) \<and>
   length (candidates parameters_part_1) = 20 \<and> distinct (candidates parameters_part_1) \<and>
   length (candidates parameters_part_2) = 288 \<and> distinct (candidates parameters_part_2)"
proof -
  have "length (candidates parameters_part_1) = 20"
    by (simp add: length_candidates parameters_part_1_def)
  moreover have "distinct (candidates parameters_part_1)"
    by (rule distinct_candidates) (simp add: parameters_part_1_def)
  moreover have "length (candidates parameters_part_2) = 288"
    by (simp add: length_candidates parameters_part_2_def)
  moreover have "distinct (candidates parameters_part_2)"
    by (rule distinct_candidates) (simp add: parameters_part_2_def)
  moreover have "map fst (score_table evaluate grid) = candidates grid"
    by (simp add: score_table_def comp_def)
  ultimately show ?thesis
    using distinct_candidates [of grid] set_candidates [of grid] length_candidates [of grid]
    by (simp add: score_table_def)
qed

theorem grid_candidates_witness:
  "list_all (\<lambda>pv. distinct (snd pv)) parameters_toxic \<and>
   distinct (candidates parameters_toxic) \<and>
   length (score_table (\<lambda>c. 0 :: rat) parameters_toxic) = 10 \<and>
   candidates [(''a'', [PInt 1, PInt 2]), (''b'', [PBool True, PBool False])] =
     [[(''a'', PInt 1), (''b'', PBool True)], [(''a'', PInt 1), (''b'', PBool False)],
      [(''a'', PInt 2), (''b'', PBool True)], [(''a'', PInt 2), (''b'', PBool False)]]"
proof -
  have d: "list_all (\<lambda>pv. distinct (snd pv)) parameters_toxic"
    by (simp add: parameters_toxic_def)
  from grid_candidates [of "\<lambda>c. 0 :: rat" parameters_toxic] d
  have "distinct (candidates parameters_toxic)"
    and "length (score_table (\<lambda>c. 0 :: rat) parameters_toxic) = 10"
    by (simp_all add: parameters_toxic_def)
  with d show ?thesis by simp
qed

text \<open>
  The claim for every grid fails where a sequence repeats a value: the grid
  \<^verbatim>\<open>{'penalty': ('l2', 'l2')}\<close> has sequence length 2, and its two candidates are the
  same assignment, so the candidates evaluated are not 2 distinct ones.
\<close>

theorem repeated_value_counterexample:
  "candidates [(''penalty'', [PStr ''l2'', PStr ''l2''])] =
     [[(''penalty'', PStr ''l2'')], [(''penalty'', PStr ''l2'')]] \<and>
   prod_list (map (\<lambda>pv. length (snd pv)) [(''penalty'', [PStr ''l2'', PStr ''l2''])]) = 2 \<and>
   card (set (candidates [(''penalty'', [PStr ''l2'', PStr ''l2''])])) = 1 \<and>
   \<not> distinct (candidates [(''penalty'', [PStr ''l2'', PStr ''l2''])])"
  by simp


text \<open>
  Modelled from the spec: the selection of the best result happens inside the library; the
  notebooks read \<^verbatim>\<open>best_score_\<close> and \<^verbatim>\<open>best_estimator_\<close>. The spec: "BestResult: the
  ScoreRecord with the maximum fold-averaged accuracy among all evaluated
  CandidateAssignments; ties broken by first-encountered order in the enumeration". The
  scan keeps the best record seen so far and replaces it only by a strictly better one.
\<close>

fun best_from :: "'c \<times> ('s::linorder) \<Rightarrow> ('c \<times> 's) list \<Rightarrow> 'c \<times> 's" where
  "best_from b [] = b"
| "best_from b (r # rs) = best_from (if snd b < snd r then r else b) rs"

definition best_result :: "('c \<times> ('s::linorder)) list \<Rightarrow> ('c \<times> 's) option" where
  "best_result table = (case table of [] \<Rightarrow> None | r # rs \<Rightarrow> Some (best_from r rs))"

text \<open>
  Modelled from the spec: the engine returns the best result and the full table (step 6
  and "Result").
\<close>

definition grid_search ::
  "((string \<times> 'v) list \<Rightarrow> ('s::linorder)) \<Rightarrow> (string \<times> 'v list) list \<Rightarrow>
   ((string \<times> 'v) list \<times> 's) option \<times> ((string \<times> 'v) list \<times> 's) list" where
  "grid_search evaluate grid = (best_result (score_table evaluate grid), score_table evaluate grid)"

lemma best_from_split:
  "\<exists>pre post. b # rs = pre @ best_from b rs # post \<and>
     (\<forall>r \<in> set pre. snd r < snd (best_from b rs)) \<and>
     (\<forall>r \<in> set post. snd r \<le> snd (best_from b rs))"
proof (induction rs arbitrary: b)
  case Nil
  have "[b] = [] @ b # []" by simp
  then show ?case by fastforce
next
  case (Cons r rs)
  define b' where "b' = (if snd b < snd r then r else b)"
  define x where "x = best_from b' rs"
  have step: "best_from b (r # rs) = x" by (simp add: b'_def x_def)
  have bb: "snd b \<le> snd b'" and rb: "snd r \<le> snd b'" by (auto simp add: b'_def)
  from Cons [of b'] obtain pre post where
    eq: "b' # rs = pre @ x # post"
    and lt: "\<forall>q \<in> set pre. snd q < snd x"
    and le: "\<forall>q \<in> set post. snd q \<le> snd x"
    unfolding x_def by blast
  show ?case
  proof (cases pre)
    case Nil
    with eq have x: "x = b'" and p: "post = rs" by simp_all
    show ?thesis
    proof (cases "snd b < snd r")
      case True
      then have xr: "x = r" using x by (simp add: b'_def)
      have "b # r # rs = [b] @ x # post" using xr p by simp
      moreover have "\<forall>q \<in> set [b]. snd q < snd x" using True xr by simp
      ultimately show ?thesis unfolding step using le by blast
    next
      case False
      then have xb: "x = b" using x by (simp add: b'_def)
      have "b # r # rs = [] @ x # (r # post)" using xb p by simp
      moreover have "\<forall>q \<in> set ([] :: ('a \<times> 'b) list). snd q < snd x" by simp
      moreover have "\<forall>q \<in> set (r # post). snd q \<le> snd x" using le False xb by auto
      ultimately show ?thesis unfolding step by blast
    qed
  next
    case (Cons q pre')
    with eq have q: "q = b'" and rs: "rs = pre' @ x # post" by simp_all
    from lt Cons q have qx: "snd b' < snd x" and lt': "\<forall>q \<in> set pre'. snd q < snd x"
      by simp_all
    have "b # r # rs = (b # r # pre') @ x # post" using rs by simp
    moreover have "\<forall>q \<in> set (b # r # pre'). snd q < snd x"
      using qx lt' bb rb by auto
    ultimately show ?thesis unfolding step using le by blast
  qed
qed

lemma best_result_split:
  assumes "table \<noteq> []"
  shows "\<exists>best pre post.
           best_result table = Some best \<and> table = pre @ best # post \<and>
           (\<forall>r \<in> set table. snd r \<le> snd best) \<and>
           (\<forall>r \<in> set pre. snd r < snd best)"
proof -
  from assms obtain b rs where t: "table = b # rs" by (cases table) auto
  from best_from_split [of b rs] obtain pre post where
    eq: "b # rs = pre @ best_from b rs # post"
    and lt: "\<forall>r \<in> set pre. snd r < snd (best_from b rs)"
    and le: "\<forall>r \<in> set post. snd r \<le> snd (best_from b rs)"
    by blast
  have "\<forall>r \<in> set (pre @ best_from b rs # post). snd r \<le> snd (best_from b rs)"
    using lt le by auto
  then have "\<forall>r \<in> set table. snd r \<le> snd (best_from b rs)"
    using t eq by simp
  moreover have "best_result table = Some (best_from b rs)"
    using t by (simp add: best_result_def)
  ultimately show ?thesis using t eq lt by blast
qed

text \<open>
  Claim C2. A grid search that has at least one candidate returns a best result that is
  a record of its table, the table lists the candidates in the order of the enumeration,
  the score of the best result is at least the score of every record of the table, and
  every record enumerated before it has a strictly smaller score: among the candidates
  that tie at the maximum, the one enumerated first is returned.
\<close>

theorem grid_search_best_result:
  assumes "candidates grid \<noteq> []"
  shows "\<exists>best pre post.
           grid_search evaluate grid = (Some best, pre @ best # post) \<and>
           map fst (pre @ best # post) = candidates grid \<and>
           (\<forall>r \<in> set (pre @ best # post). snd r \<le> snd best) \<and>
           (\<forall>r \<in> set pre. snd r < snd best)"
proof -
  have ne: "score_table evaluate grid \<noteq> []"
    using assms by (simp add: score_table_def)
  have names: "map fst (score_table evaluate grid) = candidates grid"
    by (simp add: score_table_def comp_def)
  from best_result_split [OF ne] obtain best pre post where
    "best_result (score_table evaluate grid) = Some best"
    and "score_table evaluate grid = pre @ best # post"
    and "\<forall>r \<in> set (score_table evaluate grid). snd r \<le> snd best"
    and "\<forall>r \<in> set pre. snd r < snd best"
    by blast
  then show ?thesis
    using names by (auto simp add: grid_search_def)
qed

text \<open>
  A grid of three penalties in which the second and the third candidate tie at the best
  score.
\<close>

definition ex_penalties :: "(string \<times> pyval list) list" where
  "ex_penalties = [(''penalty'', [PStr ''l1'', PStr ''l2'', PStr ''elasticnet''])]"

definition ex_evaluate :: "(string \<times> pyval) list \<Rightarrow> rat" where
  "ex_evaluate c = (if c = [(''penalty'', PStr ''l1'')] then 9 / 10 else 19 / 20)"

theorem grid_search_best_result_witness:
  "candidates ex_penalties \<noteq> [] \<and>
   grid_search ex_evaluate ex_penalties =
     (Some ([(''penalty'', PStr ''l2'')], 19 / 20),
      [([(''penalty'', PStr ''l1'')], 9 / 10),
       ([(''penalty'', PStr ''l2'')], 19 / 20),
       ([(''penalty'', PStr ''elasticnet'')], 19 / 20)]) \<and>
   (\<exists>best pre post.
      grid_search ex_evaluate ex_penalties = (Some best, pre @ best # post) \<and>
      map fst (pre @ best # post) = candidates ex_penalties \<and>
      (\<forall>r \<in> set (pre @ best # post). snd r \<le> snd best) \<and>
      (\<forall>r \<in> set pre. snd r < snd best))"
proof -
  have ne: "candidates ex_penalties \<noteq> []" by (simp add: ex_penalties_def)
  have "grid_search ex_evaluate ex_penalties =
     (Some ([(''penalty'', PStr ''l2'')], 19 / 20),
      [([(''penalty'', PStr ''l1'')], 9 / 10),
       ([(''penalty'', PStr ''l2'')], 19 / 20),
       ([(''penalty'', PStr ''elasticnet'')], 19 / 20)])"
    by (simp add: grid_search_def best_result_def score_table_def ex_penalties_def ex_evaluate_def)
  with grid_search_best_result [OF ne, of ex_evaluate] ne show ?thesis by blast
qed

end
